theory Spec2Isabelle
  imports Main
begin

section \<open>Python values and the operating system, as build.py sees them\<close>

text \<open>
  build.py is a Python 3 script (it uses f-strings). Exceptions are values of the type
  \<open>error\<close>; the plain \<open>Exception(msg)\<close> raised by \<open>PlatformInfo.__init__\<close> carries its
  message. Strings are ASCII strings.
\<close>

datatype error =
    Exception string
  | AttributeError string
  | NameError string
  | FileNotFoundError string
  | NotADirectoryError string

text \<open>\<open>str.lower()\<close> on ASCII text.\<close>

definition lower_char :: "char \<Rightarrow> char" where
  "lower_char c =
     (case map_of (zip ''ABCDEFGHIJKLMNOPQRSTUVWXYZ'' ''abcdefghijklmnopqrstuvwxyz'') c of
        Some d \<Rightarrow> d
      | None \<Rightarrow> c)"

definition lower :: "string \<Rightarrow> string" where
  "lower s = map lower_char s"

text \<open>\<open>s.startswith(t)\<close>, \<open>s.endswith(t)\<close> for a one-character \<open>t\<close>, and the substring test
  \<open>t in s\<close> of two strings.\<close>

fun startswith :: "string \<Rightarrow> string \<Rightarrow> bool" where
  "startswith s [] = True"
| "startswith [] (c # t) = False"
| "startswith (d # s) (c # t) = (d = c \<and> startswith s t)"

definition endswith_sep :: "string \<Rightarrow> bool" where
  "endswith_sep s = (s \<noteq> [] \<and> last s = CHR ''/'')"

fun str_in :: "string \<Rightarrow> string \<Rightarrow> bool" where
  "str_in t [] = (t = [])"
| "str_in t (c # s) = (startswith (c # s) t \<or> str_in t s)"

text \<open>
  \<open>os.path.join\<close> of the standard library, in its POSIX form (\<open>posixpath.join\<close>): a
  component that starts with the separator discards what came before it; otherwise the
  component is appended, after a separator unless the path so far is empty or already
  ends with one.
\<close>

definition join2 :: "string \<Rightarrow> string \<Rightarrow> string" where
  "join2 path b =
     (if startswith b ''/'' then b
      else if path = [] \<or> endswith_sep path then path @ b
      else path @ ''/'' @ b)"

definition os_path_join :: "string \<Rightarrow> string list \<Rightarrow> string" where
  "os_path_join a ps = foldl join2 a ps"

text \<open>
  The file system is what the script can observe of it: each path the script hands to the
  operating system is absent, a regular file, or a directory with the names
  \<open>os.listdir\<close> returns for it (in the order it returns them). The script never writes to
  the file system before the point where \<open>clean\<close> fails, so the operations below read a
  file system and do not return one.
\<close>

datatype entry = File | Directory "string list"

type_synonym fs = "string \<rightharpoonup> entry"

definition os_path_exists :: "fs \<Rightarrow> string \<Rightarrow> bool" where
  "os_path_exists fs p = (fs p \<noteq> None)"

definition os_listdir :: "fs \<Rightarrow> string \<Rightarrow> error + string list" where
  "os_listdir fs p =
     (case fs p of
        None \<Rightarrow> Inl (FileNotFoundError p)
      | Some File \<Rightarrow> Inl (NotADirectoryError p)
      | Some (Directory names) \<Rightarrow> Inr names)"

section \<open>PlatformInfo (lines 45-67)\<close>

record PlatformInfo =
  pi_platform :: string
  pi_arch :: string

definition ALL_PLATFORMS :: "string list" where
  "ALL_PLATFORMS = [''mac'', ''windows'', ''linux'']"

definition PLATFORM_ALIASES :: "(string \<times> string \<times> string) list" where
  "PLATFORM_ALIASES =
     [(''macos'', (''mac'', ''x86_64'')),
      (''win'', (''windows'', ''x86_64'')),
      (''win32'', (''windows'', ''x86'')),
      (''win64'', (''windows'', ''x86_64''))]"

text \<open>
  \<open>PlatformInfo.__init__(self, platform, arch='x86_64')\<close>. Line 63 reads
  \<open>if arch not in ('x86_64')\<close>: the parentheses hold a string, not a one-element tuple, so
  \<open>in\<close> is the substring test.
\<close>

definition PlatformInfo_init :: "string \<Rightarrow> string \<Rightarrow> error + PlatformInfo" where
  "PlatformInfo_init platform0 arch0 =
     (let platform1 = lower (lower platform0);
          arch1 = lower (lower arch0);
          (platform, arch) =
            (case map_of PLATFORM_ALIASES platform1 of
               Some pa \<Rightarrow> pa
             | None \<Rightarrow> (platform1, arch1))
      in if platform \<notin> set ALL_PLATFORMS
         then Inl (Exception (''invalid platform target '' @ platform))
         else if \<not> str_in arch ''x86_64''
         then Inl (Exception (''invalid architecture (expected x86_64) '' @
                                [CHR 0x27] @ platform @ [CHR 0x27]))
         else Inr \<lparr>pi_platform = platform, pi_arch = arch\<rparr>)"

section \<open>BuildInfo (lines 186-217)\<close>

text \<open>
  An instance attribute is unbound until it is assigned (reading it raises
  AttributeError); the six metadata attributes are only ever assigned \<open>None\<close>.
\<close>

datatype attr = Unbound | NoneValue

text \<open>
  \<open>BuildInfo\<close> defines neither \<open>__eq__\<close> nor \<open>__hash__\<close>: two instances are equal, and are
  the same element of a set, only when they are the same object. \<open>oid\<close> is that object
  identity.
\<close>

record BuildInfo =
  oid :: nat
  build_path :: string
  build_info_path :: string
  platform :: string
  version :: string
  status :: attr
  app_path :: attr
  exec_path :: attr
  zip_path :: attr
  branch :: attr
  commit :: attr

text \<open>\<open>read\<close> (line 213) is \<open>pass\<close>.\<close>

definition BuildInfo_read :: "BuildInfo \<Rightarrow> BuildInfo" where
  "BuildInfo_read b = b"

definition BuildInfo_init :: "fs \<Rightarrow> nat \<Rightarrow> string \<Rightarrow> string \<Rightarrow> string \<Rightarrow> BuildInfo" where
  "BuildInfo_init fs new_oid root platform' version' =
     (let bp = os_path_join root [platform', version'];
          bip = os_path_join bp [''build_info.yaml''];
          b = \<lparr>oid = new_oid, build_path = bp, build_info_path = bip,
               platform = platform', version = version',
               status = Unbound, app_path = Unbound, exec_path = Unbound,
               zip_path = Unbound, branch = Unbound, commit = Unbound\<rparr>
      in if os_path_exists fs bip then BuildInfo_read b
         else b\<lparr>status := NoneValue, app_path := NoneValue, exec_path := NoneValue,
                zip_path := NoneValue, branch := NoneValue, commit := NoneValue\<rparr>)"

text \<open>
  The class body (lines 186-217) defines \<open>get\<close>, \<open>get_or_create\<close>, \<open>__init__\<close>, \<open>read\<close> and
  \<open>write\<close>, and \<open>__init__\<close> binds no attribute called \<open>exists\<close>: the call
  \<open>build_info.exists()\<close> of line 175 fails in the attribute lookup, whatever the object.
\<close>

definition BuildInfo_exists :: "BuildInfo \<Rightarrow> error + bool" where
  "BuildInfo_exists b = Inl (AttributeError ''exists'')"

section \<open>BuildDir (lines 104-183)\<close>

text \<open>
  \<open>build_list\<close> is the attribute \<open>_build_list\<close>: \<open>None\<close>, or a Python set of BuildInfo
  objects. The set hashes and compares its elements by object identity; it is modelled as
  the list of its elements without repeated \<open>oid\<close>, kept in insertion order. \<open>next_oid\<close> is
  the allocator of object identities: every BuildInfo the script constructs takes the next
  one.

  A \<open>for\<close> loop over the set does not follow insertion order: it walks the hash table,
  where the place of an object depends on its identity and on what the table holds.
  \<open>hash_order\<close> stands for that: given the identities in the set, it ranks each of them,
  and \<open>iterate\<close> lists the elements by rank. Every order of iteration is \<open>iterate h\<close> for
  some \<open>h\<close>; the operations that loop over the set take \<open>h\<close> as a parameter, and the
  properties below hold for every \<open>h\<close>.
\<close>

record BuildDir =
  build_dir :: string
  build_list :: "BuildInfo list option"
  next_oid :: nat

type_synonym 'a result = "(error + 'a) \<times> BuildDir"

type_synonym hash_order = "nat list \<Rightarrow> nat \<Rightarrow> nat"

definition iterate :: "hash_order \<Rightarrow> BuildInfo list \<Rightarrow> BuildInfo list" where
  "iterate h bs = sort_key (\<lambda>b. h (map oid bs) (oid b)) bs"

text \<open>Lines 8-11, evaluated once when the module is loaded.\<close>

definition BUILD_DIR :: "fs \<Rightarrow> string" where
  "BUILD_DIR fs = (if os_path_exists fs ''../Assets'' then ''../Builds'' else ''Builds'')"

text \<open>\<open>__init__(self, build_dir=None)\<close>: \<open>build_dir or BUILD_DIR\<close> falls back for \<open>None\<close> and
  for the empty string.\<close>

definition BuildDir_init :: "fs \<Rightarrow> string option \<Rightarrow> BuildDir" where
  "BuildDir_init fs arg =
     \<lparr>build_dir = (case arg of None \<Rightarrow> BUILD_DIR fs
                              | Some d \<Rightarrow> if d = [] then BUILD_DIR fs else d),
      build_list = None,
      next_oid = 0\<rparr>"

definition path :: "BuildDir \<Rightarrow> string" where
  "path self = build_dir self"


text \<open>\<open>set.add\<close> on a set that compares by object identity.\<close>

definition set_add :: "BuildInfo \<Rightarrow> BuildInfo list \<Rightarrow> BuildInfo list" where
  "set_add b bs = (if oid b \<in> oid ` set bs then bs else bs @ [b])"

text \<open>
  \<open>get_build_list\<close>, \<open>add_build\<close> and \<open>load\<close> call each other: \<open>get_build_list\<close> on an
  unloaded registry stores an empty set and calls \<open>load\<close>, whose \<open>add_build\<close> calls
  \<open>get_build_list\<close> again, which now returns the stored set at once (line 133 is false).
  \<open>load_set\<close> is \<open>load\<close> in that situation, on the stored set and the allocator;
  \<open>load\<close> below is the method for any registry, and lemma \<open>load_loaded\<close> shows that the two
  agree whenever a set is stored. With a set stored, only \<open>os.listdir\<close> can raise.
\<close>

fun load_set_versions ::
  "fs \<Rightarrow> string \<Rightarrow> string \<Rightarrow> string list \<Rightarrow> BuildInfo list \<times> nat \<Rightarrow> BuildInfo list \<times> nat"
where
  "load_set_versions fs root p [] (bs, n) = (bs, n)"
| "load_set_versions fs root p (v # vs) (bs, n) =
     load_set_versions fs root p vs (set_add (BuildInfo_init fs n root p v) bs, Suc n)"

fun load_set_platforms ::
  "fs \<Rightarrow> string \<Rightarrow> string list \<Rightarrow> BuildInfo list \<times> nat \<Rightarrow> error option \<times> BuildInfo list \<times> nat"
where
  "load_set_platforms fs root [] st = (None, st)"
| "load_set_platforms fs root (p # ps) st =
     (case os_listdir fs (os_path_join root [p]) of
        Inl e \<Rightarrow> (Some e, st)
      | Inr vs \<Rightarrow> load_set_platforms fs root ps (load_set_versions fs root p vs st))"

definition load_set ::
  "fs \<Rightarrow> string \<Rightarrow> BuildInfo list \<times> nat \<Rightarrow> error option \<times> BuildInfo list \<times> nat"
where
  "load_set fs root st =
     (if \<not> os_path_exists fs root then (None, st)
      else case os_listdir fs root of
             Inl e \<Rightarrow> (Some e, st)
           | Inr ps \<Rightarrow> load_set_platforms fs root ps st)"

definition get_build_list :: "fs \<Rightarrow> BuildDir \<Rightarrow> BuildInfo list result" where
  "get_build_list fs self =
     (case build_list self of
        Some bs \<Rightarrow> (Inr bs, self)
      | None \<Rightarrow>
          (case load_set fs (build_dir self) ([], next_oid self) of
             (Some e, bs, n) \<Rightarrow> (Inl e, self\<lparr>build_list := Some bs, next_oid := n\<rparr>)
           | (None, bs, n) \<Rightarrow> (Inr bs, self\<lparr>build_list := Some bs, next_oid := n\<rparr>)))"

text \<open>\<open>add_build\<close>: the set returned by \<open>get_build_list\<close> is the stored one, so adding to it
  changes \<open>_build_list\<close>.\<close>

definition add_build :: "fs \<Rightarrow> BuildInfo \<Rightarrow> BuildDir \<Rightarrow> unit result" where
  "add_build fs b self =
     (case get_build_list fs self of
        (Inl e, self') \<Rightarrow> (Inl e, self')
      | (Inr bs, self') \<Rightarrow> (Inr (), self'\<lparr>build_list := Some (set_add b bs)\<rparr>))"

text \<open>\<open>load\<close> (lines 154-162). The argument of \<open>add_build\<close> is constructed before the call.\<close>

fun load_versions :: "fs \<Rightarrow> string \<Rightarrow> string list \<Rightarrow> BuildDir \<Rightarrow> unit result" where
  "load_versions fs p [] self = (Inr (), self)"
| "load_versions fs p (v # vs) self =
     (let b = BuildInfo_init fs (next_oid self) (path self) p v in
      case add_build fs b (self\<lparr>next_oid := Suc (next_oid self)\<rparr>) of
        (Inl e, self') \<Rightarrow> (Inl e, self')
      | (Inr u, self') \<Rightarrow> load_versions fs p vs self')"

fun load_platforms :: "fs \<Rightarrow> string list \<Rightarrow> BuildDir \<Rightarrow> unit result" where
  "load_platforms fs [] self = (Inr (), self)"
| "load_platforms fs (p # ps) self =
     (case os_listdir fs (os_path_join (build_dir self) [p]) of
        Inl e \<Rightarrow> (Inl e, self)
      | Inr vs \<Rightarrow>
          (case load_versions fs p vs self of
             (Inl e, self') \<Rightarrow> (Inl e, self')
           | (Inr u, self') \<Rightarrow> load_platforms fs ps self'))"

definition load :: "fs \<Rightarrow> BuildDir \<Rightarrow> unit result" where
  "load fs self =
     (if \<not> os_path_exists fs (build_dir self) then (Inr (), self)
      else case os_listdir fs (build_dir self) of
             Inl e \<Rightarrow> (Inl e, self)
           | Inr ps \<Rightarrow> load_platforms fs ps self)"

text \<open>
  The \<open>platform\<close> argument of \<open>get_build\<close> and \<open>get_or_create_build\<close> is a string or a
  PlatformInfo: the script's driver passes PlatformInfo objects (lines 220-232, 258-286).
  PlatformInfo defines \<open>__cmp__\<close> only, which Python 3 never calls, so
  \<open>build.platform == platform\<close> with a string on the left and a PlatformInfo on the right
  is \<open>False\<close>; and a string has no attribute \<open>platform\<close>.
\<close>

datatype pyval = PyStr string | PyPlatformInfo PlatformInfo

fun str_eq :: "string \<Rightarrow> pyval \<Rightarrow> bool" where
  "str_eq s (PyStr t) = (s = t)"
| "str_eq s (PyPlatformInfo i) = False"

fun getattr_platform :: "pyval \<Rightarrow> error + string" where
  "getattr_platform (PyStr t) = Inl (AttributeError ''platform'')"
| "getattr_platform (PyPlatformInfo i) = Inr (pi_platform i)"

text \<open>\<open>get_build\<close> (lines 138-142) returns the first match in the order of iteration.\<close>

definition get_build ::
  "hash_order \<Rightarrow> fs \<Rightarrow> pyval \<Rightarrow> string \<Rightarrow> BuildDir \<Rightarrow> BuildInfo option result"
where
  "get_build h fs target ver self =
     (case get_build_list fs self of
        (Inl e, self') \<Rightarrow> (Inl e, self')
      | (Inr bs, self') \<Rightarrow>
          (Inr (find (\<lambda>build. str_eq (platform build) target \<and> version build = ver)
                  (iterate h bs)),
           self'))"

definition get_or_create_build ::
  "hash_order \<Rightarrow> fs \<Rightarrow> pyval \<Rightarrow> string \<Rightarrow> BuildDir \<Rightarrow> BuildInfo result"
where
  "get_or_create_build h fs target ver self =
     (case get_build h fs target ver self of
        (Inl e, self') \<Rightarrow> (Inl e, self')
      | (Inr (Some build_info), self') \<Rightarrow> (Inr build_info, self')
      | (Inr None, self') \<Rightarrow>
          (case getattr_platform target of
             Inl e \<Rightarrow> (Inl e, self')
           | Inr p \<Rightarrow>
               (let build_info = BuildInfo_init fs (next_oid self') (path self') p ver in
                case add_build fs build_info (self'\<lparr>next_oid := Suc (next_oid self')\<rparr>) of
                  (Inl e, self'') \<Rightarrow> (Inl e, self'')
                | (Inr u, self'') \<Rightarrow> (Inr build_info, self''))))"

text \<open>
  \<open>clean\<close> (lines 164-183). The list comprehension of lines 172-176 calls
  \<open>build_info.exists()\<close> for every element, in the order of iteration. Line 180 reads \<open>shutil.rmtree(build_dir)\<close>:
  \<open>build_dir\<close> is not a local of \<open>clean\<close> (those are \<open>self\<close>, \<open>builds\<close>, \<open>shutil\<close>), not a
  global of the module (which binds \<open>BUILD_DIR\<close>) and not a builtin, so evaluating the
  argument raises NameError before \<open>rmtree\<close> is entered, and line 183 is never reached.
\<close>

fun existing_builds :: "BuildInfo list \<Rightarrow> error + BuildInfo list" where
  "existing_builds [] = Inr []"
| "existing_builds (build_info # builds) =
     (case BuildInfo_exists build_info of
        Inl e \<Rightarrow> Inl e
      | Inr ok \<Rightarrow>
          (case existing_builds builds of
             Inl e \<Rightarrow> Inl e
           | Inr rest \<Rightarrow> Inr (if ok then build_info # rest else rest)))"

definition clean :: "hash_order \<Rightarrow> fs \<Rightarrow> BuildDir \<Rightarrow> unit result" where
  "clean h fs self =
     (if os_path_exists fs (build_dir self) then
        (case get_build_list fs self of
           (Inl e, self') \<Rightarrow> (Inl e, self')
         | (Inr builds, self') \<Rightarrow>
             (case existing_builds (iterate h builds) of
                Inl e \<Rightarrow> (Inl e, self')
              | Inr listed \<Rightarrow> (Inl (NameError ''build_dir''), self')))
      else (Inr (), self))"

section \<open>Notions used in the properties\<close>

text \<open>The identity of a record in the sense of the specification.\<close>

definition identity :: "BuildInfo \<Rightarrow> string \<times> string" where
  "identity b = (platform b, version b)"

definition identity_invariant :: "BuildDir \<Rightarrow> bool" where
  "identity_invariant self =
     (case build_list self of None \<Rightarrow> True | Some bs \<Rightarrow> distinct (map identity bs))"

text \<open>
  What does hold of the stored set: no object occurs twice, and every object in it was
  allocated before the allocator's current position.
\<close>

definition allocated :: "BuildInfo list \<Rightarrow> nat \<Rightarrow> bool" where
  "allocated bs n = (distinct (map oid bs) \<and> list_all (\<lambda>b. oid b < n) bs)"

definition object_invariant :: "BuildDir \<Rightarrow> bool" where
  "object_invariant self =
     (case build_list self of None \<Rightarrow> True | Some bs \<Rightarrow> allocated bs (next_oid self))"

text \<open>
  The directory layout of the specification: the root is a directory and so is each of its
  entries. \<open>disk_pairs\<close> lists the (first-level name, second-level name) pairs under the
  given first-level names, in scan order.
\<close>

definition listing :: "fs \<Rightarrow> string \<Rightarrow> string list" where
  "listing fs d = (case os_listdir fs d of Inr names \<Rightarrow> names | Inl e \<Rightarrow> [])"

definition is_directory :: "fs \<Rightarrow> string \<Rightarrow> bool" where
  "is_directory fs d = (case fs d of Some (Directory names) \<Rightarrow> True | _ \<Rightarrow> False)"

definition layout_ok :: "fs \<Rightarrow> string \<Rightarrow> bool" where
  "layout_ok fs root =
     (is_directory fs root \<and>
      list_all (\<lambda>p. is_directory fs (os_path_join root [p])) (listing fs root))"

definition disk_pairs :: "fs \<Rightarrow> string \<Rightarrow> string list \<Rightarrow> (string \<times> string) list" where
  "disk_pairs fs root ps =
     concat (map (\<lambda>p. map (Pair p) (listing fs (os_path_join root [p]))) ps)"

text \<open>File systems and values for the examples.\<close>

definition linux_info :: PlatformInfo where
  "linux_info = \<lparr>pi_platform = ''linux'', pi_arch = ''x86_64''\<rparr>"

definition fs_empty_root :: fs where
  "fs_empty_root = [''Builds'' \<mapsto> Directory []]"

definition fs_one_build :: fs where
  "fs_one_build =
     [''Builds'' \<mapsto> Directory [''mac''],
      ''Builds/mac'' \<mapsto> Directory [''v1.0''],
      ''Builds/mac/v1.0'' \<mapsto> Directory []]"

definition fs_sidecar :: fs where
  "fs_sidecar =
     [''Builds'' \<mapsto> Directory [''mac''],
      ''Builds/mac'' \<mapsto> Directory [''v1.0''],
      ''Builds/mac/v1.0'' \<mapsto> Directory [''build_info.yaml''],
      ''Builds/mac/v1.0/build_info.yaml'' \<mapsto> File]"

definition fs_two_versions :: fs where
  "fs_two_versions =
     [''Builds'' \<mapsto> Directory [''mac''],
      ''Builds/mac'' \<mapsto> Directory [''v1.0'', ''v1.1''],
      ''Builds/mac/v1.0'' \<mapsto> Directory [],
      ''Builds/mac/v1.1'' \<mapsto> Directory []]"

definition fs_other_name :: fs where
  "fs_other_name =
     [''Builds'' \<mapsto> Directory [''beos''],
      ''Builds/beos'' \<mapsto> Directory [''v9''],
      ''Builds/beos/v9'' \<mapsto> Directory []]"


definition fs_file_between :: fs where
  "fs_file_between =
     [''Builds'' \<mapsto> Directory [''mac'', ''notes.txt'', ''linux''],
      ''Builds/mac'' \<mapsto> Directory [''v1.0''],
      ''Builds/mac/v1.0'' \<mapsto> Directory [],
      ''Builds/notes.txt'' \<mapsto> File,
      ''Builds/linux'' \<mapsto> Directory [''v1.0''],
      ''Builds/linux/v1.0'' \<mapsto> Directory []]"

text \<open>The registry BuildDir('Builds') after its first \<open>get_build_list\<close> on \<open>fs_one_build\<close>,
  and a second BuildInfo object for the build it holds.\<close>

definition loaded_one_build :: BuildDir where
  "loaded_one_build =
     snd (get_build_list fs_one_build (BuildDir_init fs_one_build (Some ''Builds'')))"

definition second_mac_object :: BuildInfo where
  "second_mac_object = BuildInfo_init fs_one_build 1 ''Builds'' ''mac'' ''v1.0''"

text \<open>
  The operations on a registry that a caller can string together: \<open>load\<close>,
  \<open>get_build_list\<close>, \<open>add_build\<close> of a BuildInfo the caller has just constructed,
  \<open>add_build\<close> of an object that is already in the set (the i-th inserted), and
  \<open>get_or_create_build\<close>. Each step may see another file system, and \<open>step\<close> gives the
  registry as the operation leaves it, whether it returns or raises.
\<close>

datatype op =
    Load
  | GetRecords
  | AddNew string string string
  | AddAgain nat
  | GetOrCreate pyval string

fun step :: "hash_order \<Rightarrow> fs \<Rightarrow> op \<Rightarrow> BuildDir \<Rightarrow> BuildDir" where
  "step h fs Load self = snd (load fs self)"
| "step h fs GetRecords self = snd (get_build_list fs self)"
| "step h fs (AddNew root p v) self =
     snd (add_build fs (BuildInfo_init fs (next_oid self) root p v)
            (self\<lparr>next_oid := Suc (next_oid self)\<rparr>))"
| "step h fs (AddAgain i) self =
     (case build_list self of
        None \<Rightarrow> self
      | Some bs \<Rightarrow> if i < length bs then snd (add_build fs (bs ! i) self) else self)"
| "step h fs (GetOrCreate target ver) self = snd (get_or_create_build h fs target ver self)"

fun run :: "hash_order \<Rightarrow> (fs \<times> op) list \<Rightarrow> BuildDir \<Rightarrow> BuildDir" where
  "run h [] self = self"
| "run h ((fs, opn) # rest) self = run h rest (step h fs opn self)"

section \<open>Evaluation and basic facts\<close>

lemmas eval_defs =
  BuildDir_init_def BUILD_DIR_def get_or_create_build_def get_build_def get_build_list_def
  load_set_def os_path_exists_def os_listdir_def add_build_def set_add_def
  BuildInfo_init_def BuildInfo_read_def os_path_join_def join2_def endswith_sep_def
  path_def identity_def clean_def BuildInfo_exists_def load_def iterate_def

lemma BuildInfo_init_sel [simp]:
  "oid (BuildInfo_init fs n root p v) = n"
  "platform (BuildInfo_init fs n root p v) = p"
  "version (BuildInfo_init fs n root p v) = v"
  "build_path (BuildInfo_init fs n root p v) = os_path_join root [p, v]"
  "build_info_path (BuildInfo_init fs n root p v) =
     os_path_join (os_path_join root [p, v]) [''build_info.yaml'']"
  "identity (BuildInfo_init fs n root p v) = (p, v)"
  by (simp_all add: BuildInfo_init_def BuildInfo_read_def Let_def identity_def)

lemmas layout_defs =
  layout_ok_def is_directory_def listing_def os_listdir_def os_path_join_def join2_def
  endswith_sep_def disk_pairs_def BuildDir_init_def

lemma BuildDir_same [simp]:
  "build_list self = Some bs \<Longrightarrow> self\<lparr>build_list := Some bs, next_oid := next_oid self\<rparr> = self"
  "build_list self = Some bs \<Longrightarrow> self\<lparr>build_list := Some bs\<rparr> = self"
  by (cases self; simp)+

text \<open>\<open>iterate\<close> only reorders; a constant \<open>h\<close> gives insertion order.\<close>

lemma iterate_set [simp]: "set (iterate h bs) = set bs"
  by (simp add: iterate_def)

lemma iterate_length [simp]: "length (iterate h bs) = length bs"
  by (simp add: iterate_def)

lemma iterate_distinct [simp]: "distinct (iterate h bs) = distinct bs"
  by (simp add: iterate_def)

lemma iterate_constant: "iterate (\<lambda>seen n. c) bs = bs"
  by (simp add: iterate_def sort_key_const)

section \<open>PlatformInfo\<close>

text \<open>
  C5. The claim: every architecture other than x86_64 is rejected. The message of line 65
  says so too ("expected x86_64"), but the test of line 63 is a substring test against the
  string 'x86_64': PlatformInfo('win32') resolves through the alias table to
  (windows, x86) and is accepted, and so is PlatformInfo('mac', 'x86').
\<close>

theorem PlatformInfo_init_accepts_x86:
  "PlatformInfo_init ''win32'' ''x86_64'' = Inr \<lparr>pi_platform = ''windows'', pi_arch = ''x86''\<rparr> \<and>
   PlatformInfo_init ''mac'' ''x86'' = Inr \<lparr>pi_platform = ''mac'', pi_arch = ''x86''\<rparr>"
  by (simp add: PlatformInfo_init_def lower_def lower_char_def PLATFORM_ALIASES_def
      ALL_PLATFORMS_def)

text \<open>An architecture that is not a substring of 'x86_64' is rejected, with the message of
  line 65.\<close>

lemma PlatformInfo_init_rejects_arm:
  "PlatformInfo_init ''Linux'' ''ARM'' =
     Inl (Exception (''invalid architecture (expected x86_64) '' @
                       [CHR 0x27] @ ''linux'' @ [CHR 0x27]))"
  by (simp add: PlatformInfo_init_def lower_def lower_char_def PLATFORM_ALIASES_def
      ALL_PLATFORMS_def)

section \<open>BuildInfo\<close>

lemma join2_plain:
  "a \<noteq> [] \<Longrightarrow> \<not> endswith_sep a \<Longrightarrow> CHR ''/'' \<notin> set b \<Longrightarrow> join2 a b = a @ ''/'' @ b"
  by (cases b) (auto simp: join2_def)

lemma endswith_sep_append:
  "b \<noteq> [] \<Longrightarrow> CHR ''/'' \<notin> set b \<Longrightarrow> \<not> endswith_sep (a @ b)"
proof -
  assume b: "b \<noteq> []" and no: "CHR ''/'' \<notin> set b"
  from b have "last (a @ b) \<in> set b" by simp
  with no have "last (a @ b) \<noteq> CHR ''/''" by metis
  then show ?thesis by (simp add: endswith_sep_def)
qed

lemma os_path_join_plain:
  assumes "root \<noteq> []" "\<not> endswith_sep root" "p \<noteq> []" "CHR ''/'' \<notin> set p"
    "v \<noteq> []" "CHR ''/'' \<notin> set v"
  shows "os_path_join root [p, v] = root @ ''/'' @ p @ ''/'' @ v"
    and "os_path_join (os_path_join root [p, v]) [''build_info.yaml''] =
          root @ ''/'' @ p @ ''/'' @ v @ ''/build_info.yaml''"
proof -
  have 1: "join2 root p = root @ ''/'' @ p"
    using assms by (simp add: join2_plain)
  have "\<not> endswith_sep (root @ ''/'' @ p)"
    using endswith_sep_append [of p "root @ ''/''"] assms by simp
  then have 2: "join2 (root @ ''/'' @ p) v = (root @ ''/'' @ p) @ ''/'' @ v"
    using assms by (simp add: join2_plain)
  have "\<not> endswith_sep ((root @ ''/'' @ p) @ ''/'' @ v)"
    using endswith_sep_append [of v "(root @ ''/'' @ p) @ ''/''"] assms by simp
  then have 3: "join2 ((root @ ''/'' @ p) @ ''/'' @ v) ''build_info.yaml'' =
                ((root @ ''/'' @ p) @ ''/'' @ v) @ ''/'' @ ''build_info.yaml''"
    by (simp add: join2_plain)
  show "os_path_join root [p, v] = root @ ''/'' @ p @ ''/'' @ v"
    using 1 2 by (simp add: os_path_join_def)
  show "os_path_join (os_path_join root [p, v]) [''build_info.yaml''] =
          root @ ''/'' @ p @ ''/'' @ v @ ''/build_info.yaml''"
    using 1 2 3 by (simp add: os_path_join_def)
qed

text \<open>
  C4, as stated, fails: the metadata path is not the build path joined with the file name
  "build_info". For BuildInfo('Builds', 'mac', 'v1.0') the code gives
  Builds/mac/v1.0/build_info.yaml.
\<close>

theorem build_info_path_is_not_build_info:
  "build_info_path (BuildInfo_init Map.empty 0 ''Builds'' ''mac'' ''v1.0'') \<noteq>
   os_path_join (build_path (BuildInfo_init Map.empty 0 ''Builds'' ''mac'' ''v1.0''))
     [''build_info'']"
  by (simp add: eval_defs)

text \<open>
  C4, amended: for every record constructed with (root, platform, version), build_path is
  os.path.join(root, platform, version) and build_info_path is build_path joined with the
  file name "build_info.yaml". When the root is non-empty and does not end with the
  separator, and platform and version are non-empty names without a separator, these are
  the strings root/platform/version and root/platform/version/build_info.yaml.
\<close>

theorem BuildInfo_init_paths:
  "build_path (BuildInfo_init fs n root p v) = os_path_join root [p, v] \<and>
   build_info_path (BuildInfo_init fs n root p v) =
     os_path_join (build_path (BuildInfo_init fs n root p v)) [''build_info.yaml''] \<and>
   (root \<noteq> [] \<and> \<not> endswith_sep root \<and> p \<noteq> [] \<and> CHR ''/'' \<notin> set p \<and>
    v \<noteq> [] \<and> CHR ''/'' \<notin> set v \<longrightarrow>
      build_path (BuildInfo_init fs n root p v) = root @ ''/'' @ p @ ''/'' @ v \<and>
      build_info_path (BuildInfo_init fs n root p v) =
        root @ ''/'' @ p @ ''/'' @ v @ ''/build_info.yaml'')"
  unfolding BuildInfo_init_sel
  by (intro conjI impI; (elim conjE)?) (rule refl os_path_join_plain; assumption)+

theorem BuildInfo_init_paths_witness:
  "build_path (BuildInfo_init Map.empty 0 ''Builds'' ''mac'' ''v1.0'') = ''Builds/mac/v1.0'' \<and>
   build_info_path (BuildInfo_init Map.empty 0 ''Builds'' ''mac'' ''v1.0'') =
     ''Builds/mac/v1.0/build_info.yaml''"
  using BuildInfo_init_paths [of Map.empty 0 "''Builds''" "''mac''" "''v1.0''"]
  by (simp add: endswith_sep_def os_path_join_def join2_def)

text \<open>
  C7. The claim: every record provides exists(), true iff build_path is on disk. \<open>clean\<close>
  calls it (line 175), but the class does not define it: for a record whose build_path is
  on disk the call raises AttributeError instead of returning True.
\<close>

theorem BuildInfo_exists_raises:
  "os_path_exists fs_one_build
     (build_path (BuildInfo_init fs_one_build 0 ''Builds'' ''mac'' ''v1.0'')) \<and>
   BuildInfo_exists (BuildInfo_init fs_one_build 0 ''Builds'' ''mac'' ''v1.0'') =
     Inl (AttributeError ''exists'')"
  by (simp add: eval_defs fs_one_build_def)

text \<open>
  C8. The claim: the six metadata fields are None after construction, also when the
  sidecar file exists. When it exists, \<open>__init__\<close> calls \<open>read\<close>, which is \<open>pass\<close>, and the
  assignments of lines 206-211 are skipped: the six attributes are left unbound, so
  reading any of them raises AttributeError.
\<close>

theorem BuildInfo_init_sidecar_unbound:
  "os_path_exists fs_sidecar
     (build_info_path (BuildInfo_init fs_sidecar 0 ''Builds'' ''mac'' ''v1.0'')) \<and>
   (let b = BuildInfo_init fs_sidecar 0 ''Builds'' ''mac'' ''v1.0''
    in [status b, app_path b, exec_path b, zip_path b, branch b, commit b] =
         replicate 6 Unbound)"
  by (simp add: eval_defs fs_sidecar_def Let_def eval_nat_numeral)

text \<open>Without a sidecar file the six attributes are None; the constructor is total.\<close>

lemma BuildInfo_init_no_sidecar:
  "\<not> os_path_exists fs (os_path_join (os_path_join root [p, v]) [''build_info.yaml'']) \<Longrightarrow>
   (let b = BuildInfo_init fs n root p v
    in [status b, app_path b, exec_path b, zip_path b, branch b, commit b] =
         replicate 6 NoneValue)"
  by (simp add: BuildInfo_init_def Let_def eval_nat_numeral)

section \<open>The directory scan\<close>

lemma allocated_Nil [simp]: "allocated [] n"
  by (simp add: allocated_def)

lemma allocated_mono: "allocated bs n \<Longrightarrow> n \<le> m \<Longrightarrow> allocated bs m"
  by (auto simp: allocated_def list_all_iff)

lemma allocated_set_add:
  "allocated bs n \<Longrightarrow> oid b < n \<Longrightarrow> allocated (set_add b bs) n"
  by (auto simp: allocated_def set_add_def list_all_iff)

lemma set_add_superset: "set bs \<subseteq> set (set_add b bs)"
  by (auto simp: set_add_def)

lemma is_directory_listdir: "is_directory fs d \<Longrightarrow> os_listdir fs d = Inr (listing fs d)"
  by (auto simp: is_directory_def listing_def os_listdir_def split: option.splits entry.splits)

lemma is_directory_exists: "is_directory fs d \<Longrightarrow> os_path_exists fs d"
  by (auto simp: is_directory_def os_path_exists_def split: option.splits)

lemma set_add_fresh: "list_all (\<lambda>x. oid x < oid b) bs \<Longrightarrow> set_add b bs = bs @ [b]"
  by (auto simp: set_add_def list_all_iff)

lemma allocated_snoc: "allocated bs n \<Longrightarrow> oid b = n \<Longrightarrow> allocated (bs @ [b]) (Suc n)"
  by (auto simp: allocated_def list_all_iff less_Suc_eq)

text \<open>What one pass of the inner loop adds.\<close>

lemma load_set_versions_appends:
  "allocated bs n \<Longrightarrow>
   \<exists>news. load_set_versions fs root p vs (bs, n) = (bs @ news, n + length news) \<and>
          allocated (bs @ news) (n + length news) \<and>
          map identity news = map (Pair p) vs \<and>
          (\<forall>b\<in>set news. build_path b = os_path_join root [platform b, version b]) \<and>
          (\<forall>b\<in>set news. n \<le> oid b)"
proof (induction vs arbitrary: bs n)
  case Nil
  then show ?case by simp
next
  case (Cons v vs)
  let ?b = "BuildInfo_init fs n root p v"
  have add: "set_add ?b bs = bs @ [?b]"
    using Cons.prems by (simp add: set_add_fresh allocated_def)
  have "allocated (bs @ [?b]) (Suc n)"
    using Cons.prems by (simp add: allocated_snoc)
  from Cons.IH [OF this] obtain news where
    n: "load_set_versions fs root p vs (bs @ [?b], Suc n) = ((bs @ [?b]) @ news, Suc n + length news)"
       "allocated ((bs @ [?b]) @ news) (Suc n + length news)"
       "map identity news = map (Pair p) vs"
       "\<forall>b\<in>set news. build_path b = os_path_join root [platform b, version b]"
       "\<forall>b\<in>set news. Suc n \<le> oid b"
    by blast
  show ?case
    by (rule exI [of _ "?b # news"]) (use n add in \<open>auto simp: Suc_le_eq less_imp_le\<close>)
qed

lemma load_set_platforms_appends:
  "allocated bs n \<Longrightarrow> list_all (\<lambda>p. is_directory fs (os_path_join root [p])) ps \<Longrightarrow>
   \<exists>news. load_set_platforms fs root ps (bs, n) = (None, bs @ news, n + length news) \<and>
          allocated (bs @ news) (n + length news) \<and>
          map identity news = disk_pairs fs root ps \<and>
          (\<forall>b\<in>set news. build_path b = os_path_join root [platform b, version b]) \<and>
          (\<forall>b\<in>set news. n \<le> oid b)"
proof (induction ps arbitrary: bs n)
  case Nil
  then show ?case by (simp add: disk_pairs_def)
next
  case (Cons p ps)
  let ?vs = "listing fs (os_path_join root [p])"
  have ld: "os_listdir fs (os_path_join root [p]) = Inr ?vs"
    using Cons.prems(2) by (simp add: is_directory_listdir)
  from load_set_versions_appends [OF Cons.prems(1), of fs root p ?vs] obtain n1 where
    n1: "load_set_versions fs root p ?vs (bs, n) = (bs @ n1, n + length n1)"
        "allocated (bs @ n1) (n + length n1)"
        "map identity n1 = map (Pair p) ?vs"
        "\<forall>b\<in>set n1. build_path b = os_path_join root [platform b, version b]"
        "\<forall>b\<in>set n1. n \<le> oid b"
    by blast
  from Cons.IH [OF n1(2)] Cons.prems(2) obtain n2 where
    n2: "load_set_platforms fs root ps (bs @ n1, n + length n1) =
           (None, (bs @ n1) @ n2, n + length n1 + length n2)"
        "allocated ((bs @ n1) @ n2) (n + length n1 + length n2)"
        "map identity n2 = disk_pairs fs root ps"
        "\<forall>b\<in>set n2. build_path b = os_path_join root [platform b, version b]"
        "\<forall>b\<in>set n2. n + length n1 \<le> oid b"
    by auto
  have low: "\<forall>b\<in>set (n1 @ n2). n \<le> oid b"
    using n1(5) n2(5) by auto
  show ?case
    by (rule exI [of _ "n1 @ n2"])
      (use ld n1(1-4) n2(1-4) low in \<open>auto simp: disk_pairs_def add.assoc\<close>)
qed

lemma load_set_appends:
  assumes "allocated bs n" "layout_ok fs root"
  shows "\<exists>news. load_set fs root (bs, n) = (None, bs @ news, n + length news) \<and>
          allocated (bs @ news) (n + length news) \<and>
          map identity news = disk_pairs fs root (listing fs root) \<and>
          (\<forall>b\<in>set news. build_path b = os_path_join root [platform b, version b]) \<and>
          (\<forall>b\<in>set news. n \<le> oid b)"
  using assms load_set_platforms_appends [of bs n fs root "listing fs root"]
  by (simp add: load_set_def layout_ok_def is_directory_exists is_directory_listdir)

text \<open>Whatever the file system, the scan keeps the objects apart.\<close>

lemma load_set_versions_allocated:
  "allocated bs n \<Longrightarrow> load_set_versions fs root p vs (bs, n) = (bs', n') \<Longrightarrow>
   allocated bs' n' \<and> n \<le> n' \<and> set bs \<subseteq> set bs'"
  using load_set_versions_appends [of bs n fs root p vs] by auto

lemma load_set_platforms_allocated:
  "allocated bs n \<Longrightarrow> load_set_platforms fs root ps (bs, n) = (eo, bs', n') \<Longrightarrow>
   allocated bs' n' \<and> n \<le> n' \<and> set bs \<subseteq> set bs'"
proof (induction ps arbitrary: bs n)
  case Nil
  then show ?case by simp
next
  case (Cons p ps)
  show ?case
  proof (cases "os_listdir fs (os_path_join root [p])")
    case (Inl e)
    with Cons.prems show ?thesis by simp
  next
    case (Inr vs)
    obtain b1 n1 where v: "load_set_versions fs root p vs (bs, n) = (b1, n1)"
      by (cases "load_set_versions fs root p vs (bs, n)")
    from load_set_versions_allocated [OF Cons.prems(1) v]
    have a1: "allocated b1 n1" "n \<le> n1" "set bs \<subseteq> set b1" by simp_all
    from Cons.prems(2) Inr v have "load_set_platforms fs root ps (b1, n1) = (eo, bs', n')"
      by simp
    from Cons.IH [OF a1(1) this] a1 show ?thesis by auto
  qed
qed

lemma load_set_allocated:
  "allocated bs n \<Longrightarrow> load_set fs root (bs, n) = (eo, bs', n') \<Longrightarrow>
   allocated bs' n' \<and> n \<le> n' \<and> set bs \<subseteq> set bs'"
  using load_set_platforms_allocated [of bs n fs root _ eo bs' n']
  by (auto simp: load_set_def split: if_splits sum.splits)

lemma disk_pairs_Cons:
  "disk_pairs fs root (q # qs) =
     map (Pair q) (listing fs (os_path_join root [q])) @ disk_pairs fs root qs"
  by (simp add: disk_pairs_def)

lemma disk_pairs_mem:
  "(p, v) \<in> set (disk_pairs fs root ps) \<longleftrightarrow> p \<in> set ps \<and> v \<in> set (listing fs (os_path_join root [p]))"
  by (auto simp: disk_pairs_def)

section \<open>load on a registry that holds a set\<close>

lemma add_build_loaded:
  "build_list self = Some bs \<Longrightarrow>
   add_build fs b self = (Inr (), self\<lparr>build_list := Some (set_add b bs)\<rparr>)"
  by (simp add: add_build_def get_build_list_def)

lemma load_versions_loaded:
  "build_list self = Some bs \<Longrightarrow>
   load_versions fs p vs self =
     (case load_set_versions fs (build_dir self) p vs (bs, next_oid self) of
        (bs', n') \<Rightarrow> (Inr (), self\<lparr>build_list := Some bs', next_oid := n'\<rparr>))"
proof (induction vs arbitrary: self bs)
  case Nil
  then show ?case by simp
next
  case (Cons v vs)
  let ?b = "BuildInfo_init fs (next_oid self) (build_dir self) p v"
  let ?s = "self\<lparr>next_oid := Suc (next_oid self), build_list := Some (set_add ?b bs)\<rparr>"
  have "build_list ?s = Some (set_add ?b bs)" by simp
  from Cons.IH [OF this] Cons.prems show ?case
    by (simp add: add_build_loaded path_def split: prod.splits)
qed

lemma load_platforms_loaded:
  "build_list self = Some bs \<Longrightarrow>
   load_platforms fs ps self =
     (case load_set_platforms fs (build_dir self) ps (bs, next_oid self) of
        (eo, bs', n') \<Rightarrow>
          (case eo of None \<Rightarrow> Inr () | Some e \<Rightarrow> Inl e,
           self\<lparr>build_list := Some bs', next_oid := n'\<rparr>))"
proof (induction ps arbitrary: self bs)
  case Nil
  then show ?case by simp
next
  case (Cons p ps)
  show ?case
  proof (cases "os_listdir fs (os_path_join (build_dir self) [p])")
    case (Inl e)
    with Cons.prems show ?thesis by simp
  next
    case (Inr vs)
    obtain b1 n1 where v: "load_set_versions fs (build_dir self) p vs (bs, next_oid self) = (b1, n1)"
      by (cases "load_set_versions fs (build_dir self) p vs (bs, next_oid self)")
    let ?s = "self\<lparr>build_list := Some b1, next_oid := n1\<rparr>"
    have "build_list ?s = Some b1" by simp
    from Cons.IH [OF this] Inr v Cons.prems show ?thesis
      by (simp add: load_versions_loaded split: prod.splits)
  qed
qed

lemma load_loaded:
  "build_list self = Some bs \<Longrightarrow>
   load fs self =
     (case load_set fs (build_dir self) (bs, next_oid self) of
        (eo, bs', n') \<Rightarrow>
          (case eo of None \<Rightarrow> Inr () | Some e \<Rightarrow> Inl e,
           self\<lparr>build_list := Some bs', next_oid := n'\<rparr>))"
  by (simp add: load_def load_set_def load_platforms_loaded split: sum.splits)

text \<open>So the call of line 135 is the method on the registry with the empty set stored.\<close>

lemma get_build_list_calls_load:
  "build_list self = None \<Longrightarrow>
   get_build_list fs self =
     (case load fs (self\<lparr>build_list := Some []\<rparr>) of
        (Inl e, self') \<Rightarrow> (Inl e, self')
      | (Inr u, self') \<Rightarrow> (Inr (the (build_list self')), self'))"
  by (simp add: get_build_list_def load_loaded [of _ "[]"] split: prod.splits option.splits)


section \<open>BuildDir: lookup and creation\<close>

text \<open>A PlatformInfo never equals the string stored in a record, so \<open>get_build\<close> finds
  nothing for it, whatever the registry holds.\<close>

lemma get_build_PlatformInfo:
  "get_build h fs (PyPlatformInfo i) ver self =
     (case get_build_list fs self of
        (Inl e, self') \<Rightarrow> (Inl e, self')
      | (Inr bs, self') \<Rightarrow> (Inr None, self'))"
  by (auto simp: get_build_def find_None_iff split: prod.splits sum.splits)

text \<open>With two records of one identity in the set, the one \<open>get_build\<close> returns depends on
  the order of iteration.\<close>

lemma get_build_follows_iteration:
  "map_sum id (map_option oid)
     (fst (get_build (\<lambda>seen n. 0) fs (PyStr ''mac'') ''v1.0''
             \<lparr>build_dir = ''Builds'',
              build_list = Some [BuildInfo_init fs 0 ''Builds'' ''mac'' ''v1.0'',
                                 BuildInfo_init fs 1 ''Builds'' ''mac'' ''v1.0''],
              next_oid = 2\<rparr>)) = Inr (Some 0) \<and>
   map_sum id (map_option oid)
     (fst (get_build (\<lambda>seen n. 9 - n) fs (PyStr ''mac'') ''v1.0''
             \<lparr>build_dir = ''Builds'',
              build_list = Some [BuildInfo_init fs 0 ''Builds'' ''mac'' ''v1.0'',
                                 BuildInfo_init fs 1 ''Builds'' ''mac'' ''v1.0''],
              next_oid = 2\<rparr>)) = Inr (Some 1)"
  by (simp add: get_build_def get_build_list_def iterate_def)

text \<open>
  C1. The claim: two calls of get_or_create_build with the same pair leave exactly one
  record of that identity. The driver passes PlatformInfo objects (lines 222, 227), and
  line 147 reads \<open>platform.platform\<close>; but line 140 compares the record's platform string
  with the PlatformInfo itself, which is never equal. On a registry whose root directory
  is absent, two calls with PlatformInfo('linux') and 'v0.2.1' return two different objects
  and leave two records with the identity (linux, v0.2.1).
\<close>

theorem get_or_create_build_twice_two_records:
  "PlatformInfo_init ''linux'' ''x86_64'' = Inr linux_info \<and>
   (let fs = Map.empty;
        self0 = BuildDir_init fs (Some ''Builds'');
        (r1, self1) = get_or_create_build h fs (PyPlatformInfo linux_info) ''v0.2.1'' self0;
        (r2, self2) = get_or_create_build h fs (PyPlatformInfo linux_info) ''v0.2.1'' self1
    in map_sum id (\<lambda>b. (oid b, identity b)) r1 = Inr (0, ''linux'', ''v0.2.1'') \<and>
       map_sum id (\<lambda>b. (oid b, identity b)) r2 = Inr (1, ''linux'', ''v0.2.1'') \<and>
       map_option (map identity) (build_list self2) =
         Some [(''linux'', ''v0.2.1''), (''linux'', ''v0.2.1'')])"
  by (simp add: eval_defs linux_info_def PlatformInfo_init_def lower_def lower_char_def
      PLATFORM_ALIASES_def ALL_PLATFORMS_def Let_def)

section \<open>BuildDir: clean and an absent root directory\<close>

lemma existing_builds_raises:
  "builds \<noteq> [] \<Longrightarrow> existing_builds builds = Inl (AttributeError ''exists'')"
  by (cases builds) (simp_all add: BuildInfo_exists_def)

text \<open>With the root directory present, \<open>clean\<close> never returns normally.\<close>

lemma clean_existing_root_raises:
  "os_path_exists fs (build_dir self) \<Longrightarrow> \<exists>e self'. clean h fs self = (Inl e, self')"
  by (auto simp: clean_def split: prod.splits sum.splits)

text \<open>
  C2. The claim: with the root present and N>0 records, clean() reports the records,
  deletes the root directory tree and resets the records to the empty set. With one build
  on disk, \<open>clean\<close> raises AttributeError at \<open>build_info.exists()\<close> (line 175) before anything
  is deleted, and the record stays in the registry. With an existing but empty root the
  listing goes through and line 180 raises NameError (\<open>build_dir\<close> for \<open>self.build_dir\<close>):
  \<open>rmtree\<close> and the reset of line 183 are never reached.
\<close>

theorem clean_raises_before_deleting:
  "(let self0 = BuildDir_init fs_one_build (Some ''Builds'');
        (r, self1) = clean h fs_one_build self0
    in os_path_exists fs_one_build (build_dir self0) \<and>
       r = Inl (AttributeError ''exists'') \<and>
       map_option (map identity) (build_list self1) = Some [(''mac'', ''v1.0'')]) \<and>
   (let self0 = BuildDir_init fs_empty_root (Some ''Builds'');
        (r, self1) = clean h fs_empty_root self0
    in os_path_exists fs_empty_root (build_dir self0) \<and>
       r = Inl (NameError ''build_dir'') \<and>
       build_list self1 = Some [])"
  by (simp add: eval_defs fs_one_build_def fs_empty_root_def Let_def)

text \<open>
  C6, as stated, fails in one point: \<open>load\<close> on an absent root returns at line 156 without
  touching \<open>_build_list\<close>, so on a registry that is still unloaded it leaves the registry
  unloaded, not loaded-but-empty.
\<close>

theorem load_absent_root_stays_unloaded:
  "\<not> os_path_exists Map.empty (build_dir (BuildDir_init Map.empty (Some ''Builds''))) \<and>
   fst (load Map.empty (BuildDir_init Map.empty (Some ''Builds''))) = Inr () \<and>
   build_list (snd (load Map.empty (BuildDir_init Map.empty (Some ''Builds'')))) \<noteq> Some []"
  by (simp add: eval_defs)

text \<open>
  C6, amended: when the root directory does not exist, load() raises nothing and leaves
  the registry as it was, and clean() raises nothing and is a no-op; get_build_list on an
  unloaded registry (which stores the empty set before it calls load) raises nothing,
  returns the empty set and leaves the registry loaded-but-empty.
\<close>

theorem absent_root_is_not_an_error:
  assumes "\<not> os_path_exists fs (build_dir self)"
  shows "load fs self = (Inr (), self) \<and> clean h fs self = (Inr (), self) \<and>
         (build_list self = None \<longrightarrow>
            get_build_list fs self = (Inr [], self\<lparr>build_list := Some []\<rparr>))"
  using assms by (simp add: load_def clean_def get_build_list_def load_set_def)

theorem absent_root_is_not_an_error_witness:
  "\<not> os_path_exists Map.empty (build_dir (BuildDir_init Map.empty (Some ''Builds''))) \<and>
   load Map.empty (BuildDir_init Map.empty (Some ''Builds'')) =
     (Inr (), BuildDir_init Map.empty (Some ''Builds'')) \<and>
   clean (\<lambda>seen n. 0) Map.empty (BuildDir_init Map.empty (Some ''Builds'')) =
     (Inr (), BuildDir_init Map.empty (Some ''Builds'')) \<and>
   get_build_list Map.empty (BuildDir_init Map.empty (Some ''Builds'')) =
     (Inr [], \<lparr>build_dir = ''Builds'', build_list = Some [], next_oid = 0\<rparr>)"
  using absent_root_is_not_an_error
    [of Map.empty "BuildDir_init Map.empty (Some ''Builds'')" "\<lambda>seen n. 0"]
  by (simp add: BuildDir_init_def os_path_exists_def)

section \<open>What the stored set guarantees\<close>

lemma get_build_list_invariant:
  assumes "object_invariant self" "get_build_list fs self = (r, self')"
  shows "object_invariant self' \<and> next_oid self \<le> next_oid self' \<and>
         build_dir self' = build_dir self \<and> build_list self' \<noteq> None \<and>
         (\<forall>bs. r = Inr bs \<longrightarrow> build_list self' = Some bs)"
proof (cases "build_list self")
  case None
  obtain eo bs' n' where l: "load_set fs (build_dir self) ([], next_oid self) = (eo, bs', n')"
    by (cases "load_set fs (build_dir self) ([], next_oid self)")
  from load_set_allocated [OF _ l] have "allocated bs' n'" "next_oid self \<le> n'" by simp_all
  with assms(2) None l show ?thesis
    by (cases eo) (auto simp: get_build_list_def object_invariant_def)
next
  case (Some bs)
  with assms show ?thesis by (auto simp: get_build_list_def)
qed

lemma add_build_invariant:
  assumes "object_invariant self" "oid b < next_oid self" "add_build fs b self = (r, self')"
  shows "object_invariant self' \<and> next_oid self \<le> next_oid self' \<and>
         build_dir self' = build_dir self"
proof -
  obtain r1 s1 where g: "get_build_list fs self = (r1, s1)"
    by (cases "get_build_list fs self")
  note i = get_build_list_invariant [OF assms(1) g]
  show ?thesis
  proof (cases r1)
    case (Inl e)
    with g assms(3) i show ?thesis by (simp add: add_build_def)
  next
    case (Inr bs)
    with i have "build_list s1 = Some bs" "object_invariant s1" by simp_all
    then have "allocated bs (next_oid s1)" by (simp add: object_invariant_def)
    with assms(2) i have "allocated (set_add b bs) (next_oid s1)"
      by (simp add: allocated_set_add)
    with Inr g assms(3) i show ?thesis
      by (auto simp: add_build_def object_invariant_def)
  qed
qed

lemma object_invariant_bump:
  "object_invariant self \<Longrightarrow> object_invariant (self\<lparr>next_oid := Suc (next_oid self)\<rparr>)"
  by (auto simp: object_invariant_def intro: allocated_mono split: option.splits)

lemma add_new_invariant:
  assumes "object_invariant self"
    "add_build fs (BuildInfo_init fs (next_oid self) root p v)
       (self\<lparr>next_oid := Suc (next_oid self)\<rparr>) = (r, self')"
  shows "object_invariant self' \<and> next_oid self \<le> next_oid self' \<and>
         build_dir self' = build_dir self"
  using add_build_invariant [OF object_invariant_bump [OF assms(1)] _ assms(2)] by simp

lemma load_versions_invariant:
  "object_invariant self \<Longrightarrow> load_versions fs p vs self = (r, self') \<Longrightarrow>
   object_invariant self' \<and> next_oid self \<le> next_oid self' \<and> build_dir self' = build_dir self"
proof (induction vs arbitrary: self)
  case Nil
  then show ?case by simp
next
  case (Cons v vs)
  obtain r1 s1 where a: "add_build fs (BuildInfo_init fs (next_oid self) (path self) p v)
       (self\<lparr>next_oid := Suc (next_oid self)\<rparr>) = (r1, s1)"
    by (cases "add_build fs (BuildInfo_init fs (next_oid self) (path self) p v)
       (self\<lparr>next_oid := Suc (next_oid self)\<rparr>)")
  note i = add_new_invariant [OF Cons.prems(1) a]
  show ?case
  proof (cases r1)
    case (Inl e)
    with a Cons.prems(2) i show ?thesis by simp
  next
    case (Inr u)
    with a Cons.prems(2) have "load_versions fs p vs s1 = (r, self')" by simp
    from Cons.IH [OF _ this] i show ?thesis by simp
  qed
qed

lemma load_platforms_invariant:
  "object_invariant self \<Longrightarrow> load_platforms fs ps self = (r, self') \<Longrightarrow>
   object_invariant self' \<and> next_oid self \<le> next_oid self' \<and> build_dir self' = build_dir self"
proof (induction ps arbitrary: self)
  case Nil
  then show ?case by simp
next
  case (Cons p ps)
  show ?case
  proof (cases "os_listdir fs (os_path_join (build_dir self) [p])")
    case (Inl e)
    with Cons.prems show ?thesis by simp
  next
    case (Inr vs)
    obtain r1 s1 where v: "load_versions fs p vs self = (r1, s1)"
      by (cases "load_versions fs p vs self")
    note i = load_versions_invariant [OF Cons.prems(1) v]
    show ?thesis
    proof (cases r1)
      case (Inl e)
      with Inr v Cons.prems(2) i show ?thesis by simp
    next
      case r: (Inr u)
      with Inr v Cons.prems(2) have "load_platforms fs ps s1 = (r, self')" by simp
      from Cons.IH [OF _ this] i show ?thesis by simp
    qed
  qed
qed

lemma load_invariant:
  "object_invariant self \<Longrightarrow> load fs self = (r, self') \<Longrightarrow>
   object_invariant self' \<and> next_oid self \<le> next_oid self' \<and> build_dir self' = build_dir self"
  using load_platforms_invariant [of self fs _ r self']
  by (auto simp: load_def split: if_splits sum.splits)

lemma get_or_create_build_invariant:
  assumes "object_invariant self" "get_or_create_build h fs target ver self = (r, self')"
  shows "object_invariant self' \<and> next_oid self \<le> next_oid self' \<and>
         build_dir self' = build_dir self"
proof -
  obtain r1 s1 where g: "get_build_list fs self = (r1, s1)"
    by (cases "get_build_list fs self")
  note i = get_build_list_invariant [OF assms(1) g]
  show ?thesis
  proof (cases r1)
    case (Inl e)
    with g assms(2) i show ?thesis by (simp add: get_or_create_build_def get_build_def)
  next
    case (Inr bs)
    show ?thesis
    proof (cases "find (\<lambda>build. str_eq (platform build) target \<and> version build = ver)
                    (iterate h bs)")
      case (Some b)
      with Inr g assms(2) i show ?thesis by (simp add: get_or_create_build_def get_build_def)
    next
      case None
      show ?thesis
      proof (cases "getattr_platform target")
        case (Inl e)
        with None Inr g assms(2) i show ?thesis
          by (simp add: get_or_create_build_def get_build_def)
      next
        case p: (Inr p)
        obtain r2 s2 where a: "add_build fs (BuildInfo_init fs (next_oid s1) (path s1) p ver)
            (s1\<lparr>next_oid := Suc (next_oid s1)\<rparr>) = (r2, s2)"
          by (cases "add_build fs (BuildInfo_init fs (next_oid s1) (path s1) p ver)
            (s1\<lparr>next_oid := Suc (next_oid s1)\<rparr>)")
        from i have "object_invariant s1" by simp
        note j = add_new_invariant [OF this a]
        from p None Inr g assms(2) a have "self' = s2"
          by (auto simp: get_or_create_build_def get_build_def split: sum.splits)
        with i j show ?thesis by simp
      qed
    qed
  qed
qed

lemma step_invariant: "object_invariant self \<Longrightarrow> object_invariant (step h fs opn self)"
proof (cases opn)
  case Load
  then show "object_invariant self \<Longrightarrow> ?thesis"
    using load_invariant [of self fs "fst (load fs self)" "snd (load fs self)"] by simp
next
  case GetRecords
  then show "object_invariant self \<Longrightarrow> ?thesis"
    using get_build_list_invariant [of self fs "fst (get_build_list fs self)"
        "snd (get_build_list fs self)"] by simp
next
  case (AddNew root p v)
  then show "object_invariant self \<Longrightarrow> ?thesis"
    using add_new_invariant [of self fs root p v
        "fst (add_build fs (BuildInfo_init fs (next_oid self) root p v)
            (self\<lparr>next_oid := Suc (next_oid self)\<rparr>))"
        "snd (add_build fs (BuildInfo_init fs (next_oid self) root p v)
            (self\<lparr>next_oid := Suc (next_oid self)\<rparr>))"] by simp
next
  case (AddAgain i)
  show "object_invariant self \<Longrightarrow> ?thesis"
  proof (cases "build_list self")
    case None
    with AddAgain show "object_invariant self \<Longrightarrow> ?thesis" by simp
  next
    case (Some bs)
    assume inv: "object_invariant self"
    show ?thesis
    proof (cases "i < length bs")
      case True
      with inv Some have "oid (bs ! i) < next_oid self"
        by (auto simp: object_invariant_def allocated_def list_all_length)
      from add_build_invariant [OF inv this, of fs "fst (add_build fs (bs ! i) self)"
          "snd (add_build fs (bs ! i) self)"] True Some AddAgain
      show ?thesis by simp
    next
      case False
      with inv Some AddAgain show ?thesis by simp
    qed
  qed
next
  case (GetOrCreate target ver)
  then show "object_invariant self \<Longrightarrow> ?thesis"
    using get_or_create_build_invariant [of self h fs target ver
        "fst (get_or_create_build h fs target ver self)"
        "snd (get_or_create_build h fs target ver self)"] by simp
qed

lemma run_invariant: "object_invariant self \<Longrightarrow> object_invariant (run h ops self)"
  by (induction h ops self rule: run.induct) (simp_all add: step_invariant)

text \<open>
  C3, as stated, fails: \<open>add_build\<close> does not deduplicate by (platform, version). After the
  first load of a disk holding mac/v1.0, adding a second BuildInfo object for (mac, v1.0)
  raises nothing and leaves two records with that identity in the collection.
\<close>

theorem add_build_keeps_duplicate_identity:
  "identity_invariant loaded_one_build \<and>
   oid second_mac_object = next_oid loaded_one_build \<and>
   fst (add_build fs_one_build second_mac_object (loaded_one_build\<lparr>next_oid := 2\<rparr>)) = Inr () \<and>
   map_option (map identity)
     (build_list (snd (add_build fs_one_build second_mac_object
                         (loaded_one_build\<lparr>next_oid := 2\<rparr>)))) =
     Some [(''mac'', ''v1.0''), (''mac'', ''v1.0'')] \<and>
   \<not> identity_invariant
       (snd (add_build fs_one_build second_mac_object (loaded_one_build\<lparr>next_oid := 2\<rparr>)))"
  by (simp add: eval_defs fs_one_build_def loaded_one_build_def second_mac_object_def
      identity_invariant_def)

text \<open>
  C3, amended: the collection is a set of objects. After any sequence of load,
  get_build_list, add_build and get_or_create_build (whether they return or raise) no
  object occurs in it twice; and \<open>add_build\<close> on a registry that holds a set never raises:
  an object that is already in the set leaves it unchanged, any other object is inserted,
  whatever its (platform, version).
\<close>

theorem registry_keeps_objects_apart:
  "(object_invariant self \<longrightarrow> object_invariant (run h ops self)) \<and>
   (build_list self = Some bs \<longrightarrow>
      add_build fs b self =
        (Inr (), self\<lparr>build_list := Some (if oid b \<in> oid ` set bs then bs else bs @ [b])\<rparr>))"
  by (simp add: run_invariant add_build_loaded set_add_def)

theorem registry_keeps_objects_apart_witness:
  "(let self = \<lparr>build_dir = ''Builds'',
                build_list = Some [BuildInfo_init fs_one_build 0 ''Builds'' ''mac'' ''v1.0''],
                next_oid = 1\<rparr>;
        b = BuildInfo_init fs_one_build 1 ''Builds'' ''mac'' ''v1.0''
    in object_invariant self \<and>
       object_invariant
         (run (\<lambda>seen n. 9 - n) [(fs_one_build, AddNew ''Builds'' ''mac'' ''v1.0''), (fs_one_build, AddAgain 0),
               (fs_one_build, GetOrCreate (PyStr ''mac'') ''v1.0''), (fs_two_versions, Load)] self) \<and>
       add_build fs_one_build b self =
         (Inr (), self\<lparr>build_list :=
            Some [BuildInfo_init fs_one_build 0 ''Builds'' ''mac'' ''v1.0'', b]\<rparr>) \<and>
       add_build fs_one_build (BuildInfo_init fs_one_build 0 ''Builds'' ''mac'' ''v1.0'') self =
         (Inr (), self))"
proof -
  let ?b0 = "BuildInfo_init fs_one_build 0 ''Builds'' ''mac'' ''v1.0''"
  let ?b1 = "BuildInfo_init fs_one_build 1 ''Builds'' ''mac'' ''v1.0''"
  let ?self = "\<lparr>build_dir = ''Builds'', build_list = Some [?b0], next_oid = 1\<rparr>"
  let ?ops = "[(fs_one_build, AddNew ''Builds'' ''mac'' ''v1.0''), (fs_one_build, AddAgain 0),
               (fs_one_build, GetOrCreate (PyStr ''mac'') ''v1.0''), (fs_two_versions, Load)]"
  have inv: "object_invariant ?self"
    by (simp add: object_invariant_def allocated_def)
  have l: "build_list ?self = Some [?b0]" by simp
  from registry_keeps_objects_apart [of ?self "\<lambda>seen n. 9 - n" ?ops "[?b0]" fs_one_build ?b1] inv l
  have 1: "object_invariant (run (\<lambda>seen n. 9 - n) ?ops ?self)"
    and 2: "add_build fs_one_build ?b1 ?self = (Inr (), ?self\<lparr>build_list := Some [?b0, ?b1]\<rparr>)"
    by simp_all
  from registry_keeps_objects_apart [of ?self "\<lambda>seen n. 9 - n" ?ops "[?b0]" fs_one_build ?b0] l
  have 3: "add_build fs_one_build ?b0 ?self = (Inr (), ?self)"
    by simp
  from inv 1 2 3 show ?thesis unfolding Let_def by blast
qed

section \<open>load records every pair it finds\<close>

lemma load_versions_loaded_exact:
  assumes "build_list self = Some bs" "object_invariant self"
  shows "\<exists>news. load_versions fs q vs self =
            (Inr (), self\<lparr>build_list := Some (bs @ news),
                           next_oid := next_oid self + length news\<rparr>) \<and>
          allocated (bs @ news) (next_oid self + length news) \<and>
          map identity news = map (Pair q) vs \<and>
          (\<forall>b\<in>set news. build_path b = os_path_join (build_dir self) [platform b, version b])"
proof -
  from assms have "allocated bs (next_oid self)" by (simp add: object_invariant_def)
  from load_set_versions_appends [OF this, of fs "build_dir self" q vs] assms(1)
  show ?thesis by (auto simp: load_versions_loaded)
qed

lemma load_platforms_loaded_exact:
  assumes "build_list self = Some bs" "object_invariant self"
    "list_all (\<lambda>q. is_directory fs (os_path_join (build_dir self) [q])) qs"
  shows "\<exists>news. load_platforms fs qs self =
            (Inr (), self\<lparr>build_list := Some (bs @ news),
                           next_oid := next_oid self + length news\<rparr>) \<and>
          map identity news = disk_pairs fs (build_dir self) qs \<and>
          (\<forall>b\<in>set news. build_path b = os_path_join (build_dir self) [platform b, version b])"
proof -
  from assms have "allocated bs (next_oid self)" by (simp add: object_invariant_def)
  from load_set_platforms_appends [OF this assms(3)] assms(1)
  show ?thesis by (auto simp: load_platforms_loaded)
qed

text \<open>
  \<open>load\<close> called on a registry that is still unloaded: the first \<open>add_build\<close> goes through
  \<open>get_build_list\<close>, which stores the empty set and runs a whole scan of its own before
  the object in hand is added; the outer loops then go on and add every pair again.
\<close>

lemma load_versions_unloaded_exact:
  assumes "build_list self = None" "layout_ok fs (build_dir self)" "vs \<noteq> []"
  shows "\<exists>news. load_versions fs q vs self =
            (Inr (), self\<lparr>build_list := Some news, next_oid := next_oid self + length news\<rparr>) \<and>
          allocated news (next_oid self + length news) \<and>
          map identity news =
            disk_pairs fs (build_dir self) (listing fs (build_dir self)) @ map (Pair q) vs \<and>
          (\<forall>b\<in>set news. build_path b = os_path_join (build_dir self) [platform b, version b])"
proof -
  from assms(3) obtain v vs' where vs: "vs = v # vs'" by (cases vs) auto
  let ?root = "build_dir self"
  let ?n0 = "next_oid self"
  let ?b = "BuildInfo_init fs ?n0 ?root q v"
  let ?s1 = "self\<lparr>next_oid := Suc ?n0\<rparr>"
  from load_set_appends [OF allocated_Nil assms(2), of "Suc ?n0"]
  obtain n1 where n1:
    "load_set fs ?root ([], Suc ?n0) = (None, n1, Suc ?n0 + length n1)"
    "allocated n1 (Suc ?n0 + length n1)"
    "map identity n1 = disk_pairs fs ?root (listing fs ?root)"
    "\<forall>b\<in>set n1. build_path b = os_path_join ?root [platform b, version b]"
    "\<forall>b\<in>set n1. Suc ?n0 \<le> oid b"
    by auto
  from n1(5) have new: "?n0 \<notin> oid ` set n1" by auto
  then have sa: "set_add ?b n1 = n1 @ [?b]" by (simp add: set_add_def)
  let ?s2 = "self\<lparr>build_list := Some (n1 @ [?b]), next_oid := Suc ?n0 + length n1\<rparr>"
  have add: "add_build fs ?b ?s1 = (Inr (), ?s2)"
    using assms(1) n1(1) sa by (simp add: add_build_def get_build_list_def)
  have al: "allocated (n1 @ [?b]) (Suc ?n0 + length n1)"
    using n1(2) new by (auto simp: allocated_def list_all_iff)
  then have inv2: "object_invariant ?s2" by (simp add: object_invariant_def)
  from load_versions_loaded_exact [OF _ inv2, of "n1 @ [?b]" fs q vs']
  obtain n2 where n2:
    "load_versions fs q vs' ?s2 =
       (Inr (), ?s2\<lparr>build_list := Some ((n1 @ [?b]) @ n2),
                     next_oid := next_oid ?s2 + length n2\<rparr>)"
    "allocated ((n1 @ [?b]) @ n2) (next_oid ?s2 + length n2)"
    "map identity n2 = map (Pair q) vs'"
    "\<forall>b\<in>set n2. build_path b = os_path_join ?root [platform b, version b]"
    by auto
  let ?news = "n1 @ [?b] @ n2"
  have 1: "load_versions fs q vs self =
            (Inr (), self\<lparr>build_list := Some ?news, next_oid := ?n0 + length ?news\<rparr>)"
    using vs add n2(1) by (simp add: path_def)
  have 2: "allocated ?news (?n0 + length ?news)" using n2(2) by (simp add: add.assoc)
  have 3: "map identity ?news = disk_pairs fs ?root (listing fs ?root) @ map (Pair q) vs"
    using n1(3) n2(3) vs by simp
  have 4: "\<forall>b\<in>set ?news. build_path b = os_path_join ?root [platform b, version b]"
    using n1(4) n2(4) by auto
  from 1 2 3 4 show ?thesis by blast
qed

lemma load_platforms_unloaded_exact:
  assumes "build_list self = None" "layout_ok fs (build_dir self)"
  shows "list_all (\<lambda>q. is_directory fs (os_path_join (build_dir self) [q])) qs \<Longrightarrow>
         (if disk_pairs fs (build_dir self) qs = [] then load_platforms fs qs self = (Inr (), self)
          else \<exists>news. load_platforms fs qs self =
                 (Inr (), self\<lparr>build_list := Some news,
                                next_oid := next_oid self + length news\<rparr>) \<and>
               map identity news =
                 disk_pairs fs (build_dir self) (listing fs (build_dir self)) @
                 disk_pairs fs (build_dir self) qs \<and>
               (\<forall>b\<in>set news.
                  build_path b = os_path_join (build_dir self) [platform b, version b]))"
proof (induction qs)
  case Nil
  then show ?case by (simp add: disk_pairs_def)
next
  case (Cons q qs)
  let ?root = "build_dir self"
  let ?vs = "listing fs (os_path_join ?root [q])"
  from Cons.prems have ld: "os_listdir fs (os_path_join ?root [q]) = Inr ?vs"
    and rest: "list_all (\<lambda>q. is_directory fs (os_path_join ?root [q])) qs"
    by (simp_all add: is_directory_listdir)
  show ?case
  proof (cases "?vs = []")
    case True
    with Cons.IH [OF rest] ld show ?thesis by (simp add: disk_pairs_Cons)
  next
    case False
    from load_versions_unloaded_exact [OF assms False, of q]
    obtain n1 where n1:
      "load_versions fs q ?vs self =
         (Inr (), self\<lparr>build_list := Some n1, next_oid := next_oid self + length n1\<rparr>)"
      "allocated n1 (next_oid self + length n1)"
      "map identity n1 = disk_pairs fs ?root (listing fs ?root) @ map (Pair q) ?vs"
      "\<forall>b\<in>set n1. build_path b = os_path_join ?root [platform b, version b]"
      by blast
    let ?s1 = "self\<lparr>build_list := Some n1, next_oid := next_oid self + length n1\<rparr>"
    have inv1: "object_invariant ?s1" using n1(2) by (simp add: object_invariant_def)
    have rest1: "list_all (\<lambda>q. is_directory fs (os_path_join (build_dir ?s1) [q])) qs"
      using rest by simp
    from load_platforms_loaded_exact [OF _ inv1 rest1, of n1]
    obtain n2 where n2:
      "load_platforms fs qs ?s1 =
         (Inr (), ?s1\<lparr>build_list := Some (n1 @ n2), next_oid := next_oid ?s1 + length n2\<rparr>)"
      "map identity n2 = disk_pairs fs ?root qs"
      "\<forall>b\<in>set n2. build_path b = os_path_join ?root [platform b, version b]"
      by auto
    have 1: "load_platforms fs (q # qs) self =
               (Inr (), self\<lparr>build_list := Some (n1 @ n2),
                              next_oid := next_oid self + length (n1 @ n2)\<rparr>)"
      using ld n1(1) n2(1) by (simp add: add.assoc)
    have 2: "map identity (n1 @ n2) =
               disk_pairs fs ?root (listing fs ?root) @ disk_pairs fs ?root (q # qs)"
      using n1(3) n2(2) by (simp add: disk_pairs_Cons)
    have 3: "\<forall>b\<in>set (n1 @ n2). build_path b = os_path_join ?root [platform b, version b]"
      using n1(4) n2(3) by auto
    have "disk_pairs fs ?root (q # qs) \<noteq> []" using False by (simp add: disk_pairs_Cons)
    with 1 2 3 show ?thesis by (simp only: if_False) blast
  qed
qed

text \<open>
  C10, as stated, fails: an existing root is not enough for \<open>load\<close> to record every pair.
  With a regular file among the entries of the root, \<open>os.listdir\<close> of line 161 raises
  NotADirectoryError: on a root that lists mac, notes.txt, linux the pair (mac, v1.0) is
  recorded, \<open>load\<close> raises at notes.txt, and the pair (linux, v1.0) is never recorded, on a
  fresh registry and on one that holds the empty set alike.
\<close>

theorem load_stops_at_a_file:
  "os_path_exists fs_file_between ''Builds'' \<and>
   (''linux'', ''v1.0'') \<in>
     set (disk_pairs fs_file_between ''Builds'' (listing fs_file_between ''Builds'')) \<and>
   fst (load fs_file_between (BuildDir_init fs_file_between (Some ''Builds''))) =
     Inl (NotADirectoryError ''Builds/notes.txt'') \<and>
   map_option (map identity)
     (build_list (snd (load fs_file_between (BuildDir_init fs_file_between (Some ''Builds''))))) =
     Some [(''mac'', ''v1.0'')] \<and>
   fst (load fs_file_between
          \<lparr>build_dir = ''Builds'', build_list = Some [], next_oid = 0\<rparr>) =
     Inl (NotADirectoryError ''Builds/notes.txt'') \<and>
   map_option (map identity)
     (build_list (snd (load fs_file_between
                         \<lparr>build_dir = ''Builds'', build_list = Some [], next_oid = 0\<rparr>))) =
     Some [(''mac'', ''v1.0'')]"
  by (simp add: eval_defs layout_defs fs_file_between_def)

text \<open>
  C10, amended: \<open>load\<close> validates no name. When the root and each of its first-level
  entries are directories, \<open>load\<close> returns normally and creates records for exactly the
  (first-level name, second-level name) pairs on disk, each with platform and version set
  to the two names and build path root/platform/version, whatever the first-level name is
  (it need not be mac, windows or linux). On a registry that holds a set (as when
  \<open>get_build_list\<close> calls it) it adds one new record per pair, in scan order. Called on a
  registry that is still unloaded it leaves the registry unloaded when there is no pair on
  disk, and otherwise leaves two records per pair: the whole list of pairs twice.
\<close>

theorem load_records_every_pair:
  assumes "object_invariant self" "layout_ok fs (build_dir self)"
  shows "(\<forall>bs. build_list self = Some bs \<longrightarrow>
            (\<exists>news. load fs self =
                (Inr (), self\<lparr>build_list := Some (bs @ news),
                               next_oid := next_oid self + length news\<rparr>) \<and>
              map identity news = disk_pairs fs (build_dir self) (listing fs (build_dir self)) \<and>
              (\<forall>b\<in>set news.
                 build_path b = os_path_join (build_dir self) [platform b, version b]))) \<and>
         (build_list self = None \<longrightarrow>
            (if disk_pairs fs (build_dir self) (listing fs (build_dir self)) = []
             then load fs self = (Inr (), self)
             else \<exists>news. load fs self =
                    (Inr (), self\<lparr>build_list := Some news,
                                   next_oid := next_oid self + length news\<rparr>) \<and>
                  map identity news =
                    disk_pairs fs (build_dir self) (listing fs (build_dir self)) @
                    disk_pairs fs (build_dir self) (listing fs (build_dir self)) \<and>
                  (\<forall>b\<in>set news.
                     build_path b = os_path_join (build_dir self) [platform b, version b])))"
proof (intro conjI allI impI)
  let ?root = "build_dir self"
  from assms(2) have d: "os_path_exists fs ?root" "os_listdir fs ?root = Inr (listing fs ?root)"
    "list_all (\<lambda>q. is_directory fs (os_path_join ?root [q])) (listing fs ?root)"
    by (simp_all add: layout_ok_def is_directory_exists is_directory_listdir)
  have l: "load fs self = load_platforms fs (listing fs ?root) self"
    using d by (simp add: load_def)
  {
    fix bs assume "build_list self = Some bs"
    from load_platforms_loaded_exact [OF this assms(1) d(3)]
    show "\<exists>news. load fs self =
                (Inr (), self\<lparr>build_list := Some (bs @ news),
                               next_oid := next_oid self + length news\<rparr>) \<and>
              map identity news = disk_pairs fs ?root (listing fs ?root) \<and>
              (\<forall>b\<in>set news. build_path b = os_path_join ?root [platform b, version b])"
      unfolding l .
  }
  {
    assume "build_list self = None"
    from load_platforms_unloaded_exact [OF this assms(2) d(3)]
    show "if disk_pairs fs ?root (listing fs ?root) = []
          then load fs self = (Inr (), self)
          else \<exists>news. load fs self =
                    (Inr (), self\<lparr>build_list := Some news,
                                   next_oid := next_oid self + length news\<rparr>) \<and>
                  map identity news =
                    disk_pairs fs ?root (listing fs ?root) @
                    disk_pairs fs ?root (listing fs ?root) \<and>
                  (\<forall>b\<in>set news. build_path b = os_path_join ?root [platform b, version b])"
      unfolding l .
  }
qed

theorem load_records_every_pair_witness:
  "''beos'' \<notin> set ALL_PLATFORMS \<and>
   (\<exists>news. load fs_other_name \<lparr>build_dir = ''Builds'', build_list = Some [], next_oid = 0\<rparr> =
        (Inr (), \<lparr>build_dir = ''Builds'', build_list = Some news, next_oid = length news\<rparr>) \<and>
      map identity news = [(''beos'', ''v9'')] \<and>
      (\<forall>b\<in>set news. build_path b = os_path_join ''Builds'' [platform b, version b])) \<and>
   (\<exists>news. load fs_other_name \<lparr>build_dir = ''Builds'', build_list = None, next_oid = 0\<rparr> =
        (Inr (), \<lparr>build_dir = ''Builds'', build_list = Some news, next_oid = length news\<rparr>) \<and>
      map identity news = [(''beos'', ''v9''), (''beos'', ''v9'')])"
proof -
  let ?set = "\<lparr>build_dir = ''Builds'', build_list = Some [], next_oid = 0\<rparr>"
  let ?none = "\<lparr>build_dir = ''Builds'', build_list = None, next_oid = 0\<rparr>"
  have i1: "object_invariant ?set" and i2: "object_invariant ?none"
    by (simp_all add: object_invariant_def)
  have lay: "layout_ok fs_other_name ''Builds''"
    by (simp add: layout_defs fs_other_name_def)
  have d: "disk_pairs fs_other_name ''Builds'' (listing fs_other_name ''Builds'') =
             [(''beos'', ''v9'')]"
    by (simp add: layout_defs fs_other_name_def)
  have no: "''beos'' \<notin> set ALL_PLATFORMS" by (simp add: ALL_PLATFORMS_def)
  from load_records_every_pair [of ?set fs_other_name] i1 lay d
  have 1: "\<exists>news. load fs_other_name ?set =
        (Inr (), \<lparr>build_dir = ''Builds'', build_list = Some news, next_oid = length news\<rparr>) \<and>
      map identity news = [(''beos'', ''v9'')] \<and>
      (\<forall>b\<in>set news. build_path b = os_path_join ''Builds'' [platform b, version b])"
    by simp
  from load_records_every_pair [of ?none fs_other_name] i2 lay d
  have 2: "\<exists>news. load fs_other_name ?none =
        (Inr (), \<lparr>build_dir = ''Builds'', build_list = Some news, next_oid = length news\<rparr>) \<and>
      map identity news = [(''beos'', ''v9''), (''beos'', ''v9'')]"
    by auto
  from no 1 2 show ?thesis by blast
qed

section \<open>rebuild\<close>






end
